theory Spec2Isabelle
  imports Main "HOL-Library.Sublist"
begin

section \<open>Iranian national ID validator: the model\<close>

text \<open>
  The module \<^verbatim>\<open>ir_national_id_validator.py\<close> works on Python \<^verbatim>\<open>str\<close> values, which are
  sequences of Unicode code points. A character is therefore modelled by its code point
  and a string by a list of code points; ASCII literals of the source are written with
  \<open>ustr\<close>.
\<close>

type_synonym uchar = nat
type_synonym ustring = "uchar list"

definition ustr :: "string \<Rightarrow> ustring" where
  "ustr s = map of_char s"

subsection \<open>Library behaviour the module relies on\<close>

text \<open>
  \<^verbatim>\<open>str.strip()\<close> without arguments removes leading and trailing characters for which
  \<^verbatim>\<open>str.isspace\<close> holds.
\<close>

definition isspace :: "uchar \<Rightarrow> bool" where
  "isspace c \<longleftrightarrow>
     (0x09 \<le> c \<and> c \<le> 0x0D) \<or> (0x1C \<le> c \<and> c \<le> 0x20) \<or> c = 0x85 \<or> c = 0xA0 \<or>
     c = 0x1680 \<or> (0x2000 \<le> c \<and> c \<le> 0x200A) \<or> c = 0x2028 \<or> c = 0x2029 \<or>
     c = 0x202F \<or> c = 0x205F \<or> c = 0x3000"

definition strip :: "ustring \<Rightarrow> ustring" where
  "strip s = rev (dropWhile isspace (rev (dropWhile isspace s)))"

text \<open>
  In a \<^verbatim>\<open>str\<close> pattern \<^verbatim>\<open>\d\<close> matches every Unicode decimal digit (category Nd), and
  \<^verbatim>\<open>int(ch)\<close> accepts exactly these characters, returning the decimal value. The blocks
  below are those of Unicode 14.0 (CPython 3.11); each block starts at a digit zero, so
  the value of a digit is its offset in the block modulo 10 (the block of mathematical
  digits holds five runs of ten). The development only relies on the first block, the
  latin digits.
\<close>

definition decimal_blocks :: "(uchar \<times> uchar) list" where
  "decimal_blocks =
     [(48, 57), (1632, 1641), (1776, 1785), (1984, 1993), (2406, 2415), (2534, 2543),
      (2662, 2671), (2790, 2799), (2918, 2927), (3046, 3055), (3174, 3183), (3302, 3311),
      (3430, 3439), (3558, 3567), (3664, 3673), (3792, 3801), (3872, 3881), (4160, 4169),
      (4240, 4249), (6112, 6121), (6160, 6169), (6470, 6479), (6608, 6617), (6784, 6793),
      (6800, 6809), (6992, 7001), (7088, 7097), (7232, 7241), (7248, 7257),
      (42528, 42537), (43216, 43225), (43264, 43273), (43472, 43481), (43504, 43513),
      (43600, 43609), (44016, 44025), (65296, 65305), (66720, 66729), (68912, 68921),
      (69734, 69743), (69872, 69881), (69942, 69951), (70096, 70105), (70384, 70393),
      (70736, 70745), (70864, 70873), (71248, 71257), (71360, 71369), (71472, 71481),
      (71904, 71913), (72016, 72025), (72784, 72793), (73040, 73049), (73120, 73129),
      (92768, 92777), (92864, 92873), (93008, 93017), (120782, 120831), (123200, 123209),
      (123632, 123641), (125264, 125273), (130032, 130041)]"

definition in_block :: "uchar \<Rightarrow> uchar \<times> uchar \<Rightarrow> bool" where
  "in_block c b \<longleftrightarrow> fst b \<le> c \<and> c \<le> snd b"

definition isdecimal :: "uchar \<Rightarrow> bool" where
  "isdecimal c \<longleftrightarrow> list_ex (in_block c) decimal_blocks"

datatype py_exception = ValueError | IndexError | KeyError

text \<open>\<^verbatim>\<open>int(ch)\<close> for a one-character string: the digit's value, or \<^verbatim>\<open>ValueError\<close>.\<close>

definition py_int :: "uchar \<Rightarrow> py_exception + int" where
  "py_int ch =
     (case find (in_block ch) decimal_blocks of
        None \<Rightarrow> Inl ValueError
      | Some b \<Rightarrow> Inr (int ((ch - fst b) mod 10)))"

subsection \<open>Module constants\<close>

text \<open>
  \<^verbatim>\<open>_DIGIT_MAP\<close>: the Persian digits U+06F0..U+06F9 and the Arabic digits U+0660..U+0669,
  each mapped to the latin digit U+0030..U+0039.
\<close>

definition DIGIT_MAP :: "(uchar \<times> uchar) list" where
  "DIGIT_MAP =
     [(0x6F0, 0x30), (0x6F1, 0x31), (0x6F2, 0x32), (0x6F3, 0x33), (0x6F4, 0x34),
      (0x6F5, 0x35), (0x6F6, 0x36), (0x6F7, 0x37), (0x6F8, 0x38), (0x6F9, 0x39),
      (0x660, 0x30), (0x661, 0x31), (0x662, 0x32), (0x663, 0x33), (0x664, 0x34),
      (0x665, 0x35), (0x666, 0x36), (0x667, 0x37), (0x668, 0x38), (0x669, 0x39)]"

text \<open>\<^verbatim>\<open>_INVALID_SAME_DIGITS = {str(i) * 10 for i in range(10)}\<close>\<close>

definition INVALID_SAME_DIGITS :: "ustring list" where
  "INVALID_SAME_DIGITS = map (\<lambda>i. replicate 10 (0x30 + i)) [0..<10]"

text \<open>
  \<^verbatim>\<open>_RE_10_DIGITS.match(norm)\<close> for the pattern \<^verbatim>\<open>^\d{10}$\<close>: ten decimal digits, where
  \<^verbatim>\<open>$\<close> matches at the end of the string and also just before a final newline.
\<close>

definition RE_10_DIGITS_match :: "ustring \<Rightarrow> bool" where
  "RE_10_DIGITS_match s \<longleftrightarrow>
     (length s = 10 \<and> list_all isdecimal s) \<or>
     (length s = 11 \<and> list_all isdecimal (take 10 s) \<and> s ! 10 = 0x0A)"

subsection \<open>\<^verbatim>\<open>normalize_national_id\<close>\<close>

text \<open>The body of the character loop: a mapped digit is replaced, anything else is kept.\<close>

definition translate_char :: "uchar \<Rightarrow> uchar" where
  "translate_char ch = (case map_of DIGIT_MAP ch of Some d \<Rightarrow> d | None \<Rightarrow> ch)"

text \<open>The character class \<^verbatim>\<open>[0-9]\<close>.\<close>

definition latin_digit :: "uchar \<Rightarrow> bool" where
  "latin_digit c \<longleftrightarrow> 0x30 \<le> c \<and> c \<le> 0x39"

definition normalize_national_id :: "ustring option \<Rightarrow> ustring" where
  "normalize_national_id s =
     (case s of
        None \<Rightarrow> []
      | Some t \<Rightarrow>
          (let s1 = strip t in
           if s1 = [] then []
           else
             (let joined = map translate_char s1;
                  normalized = filter latin_digit joined
              in normalized)))"

subsection \<open>\<^verbatim>\<open>_checksum_ok\<close>\<close>

text \<open>\<^verbatim>\<open>[int(ch) for ch in code10]\<close>: the first character that is no digit raises.\<close>

fun int_digits :: "ustring \<Rightarrow> py_exception + int list" where
  "int_digits [] = Inr []"
| "int_digits (ch # cs) =
     (case py_int ch of
        Inl e \<Rightarrow> Inl e
      | Inr d \<Rightarrow> (case int_digits cs of Inl e \<Rightarrow> Inl e | Inr ds \<Rightarrow> Inr (d # ds)))"

text \<open>
  The loop \<^verbatim>\<open>for i in range(9): weight = 10 - i; s += digits[i] * weight\<close>, run over the
  remaining indices; an index beyond the list raises \<^verbatim>\<open>IndexError\<close>.
\<close>

fun weighted_sum :: "int list \<Rightarrow> nat list \<Rightarrow> int \<Rightarrow> py_exception + int" where
  "weighted_sum digits [] s = Inr s"
| "weighted_sum digits (i # idx) s =
     (if i < length digits
      then weighted_sum digits idx (s + digits ! i * (10 - int i))
      else Inl IndexError)"

definition checksum_ok :: "ustring \<Rightarrow> py_exception + bool" where
  "checksum_ok code10 =
     (case int_digits code10 of
        Inl e \<Rightarrow> Inl e
      | Inr digits \<Rightarrow>
          (case weighted_sum digits [0..<9] 0 of
             Inl e \<Rightarrow> Inl e
           | Inr s \<Rightarrow>
               (let r = s mod 11 in
                if 9 < length digits
                then
                  (let check_digit = digits ! 9 in
                   if r < 2 then Inr (check_digit = r) else Inr (check_digit = 11 - r))
                else Inl IndexError)))"

subsection \<open>\<^verbatim>\<open>is_valid_national_id\<close>\<close>

datatype reason = Empty | LengthOrNotDigits | AllSameDigits | Checksum | ChecksumError

text \<open>The string the source uses for each reason.\<close>

fun reason_text :: "reason \<Rightarrow> ustring" where
  "reason_text Empty = ustr ''empty''"
| "reason_text LengthOrNotDigits = ustr ''length_or_not_digits''"
| "reason_text AllSameDigits = ustr ''all_same_digits''"
| "reason_text Checksum = ustr ''checksum''"
| "reason_text ChecksumError = ustr ''checksum_error''"

type_synonym validation_result = "bool \<times> reason option \<times> ustring option"

text \<open>
  The \<^verbatim>\<open>try\<close> block around the call of \<^verbatim>\<open>_checksum_ok\<close> catches \<^verbatim>\<open>Exception\<close>, hence both
  exceptions the call can raise.
\<close>

definition is_valid_national_id :: "ustring option \<Rightarrow> validation_result" where
  "is_valid_national_id s =
     (if s = None then (False, Some Empty, None)
      else
        (let norm = normalize_national_id s in
         if norm = [] then (False, Some Empty, None)
         else if \<not> RE_10_DIGITS_match norm then (False, Some LengthOrNotDigits, Some norm)
         else if norm \<in> set INVALID_SAME_DIGITS then (False, Some AllSameDigits, Some norm)
         else
           (case checksum_ok norm of
              Inl e \<Rightarrow> (False, Some ChecksumError, Some norm)
            | Inr ok \<Rightarrow>
                if \<not> ok then (False, Some Checksum, Some norm)
                else (True, None, Some norm))))"

text \<open>
  The same function with a log of the arguments \<^verbatim>\<open>_checksum_ok\<close> is called with, to
  state which inputs reach the checksum stage.
\<close>

definition is_valid_national_id_logged ::
    "ustring option \<Rightarrow> validation_result \<times> ustring list" where
  "is_valid_national_id_logged s =
     (if s = None then ((False, Some Empty, None), [])
      else
        (let norm = normalize_national_id s in
         if norm = [] then ((False, Some Empty, None), [])
         else if \<not> RE_10_DIGITS_match norm then ((False, Some LengthOrNotDigits, Some norm), [])
         else if norm \<in> set INVALID_SAME_DIGITS then ((False, Some AllSameDigits, Some norm), [])
         else
           (case checksum_ok norm of
              Inl e \<Rightarrow> ((False, Some ChecksumError, Some norm), [norm])
            | Inr ok \<Rightarrow>
                if \<not> ok then ((False, Some Checksum, Some norm), [norm])
                else ((True, None, Some norm), [norm]))))"

subsection \<open>\<^verbatim>\<open>validate_or_raise\<close> and \<^verbatim>\<open>is_valid\<close>\<close>

text \<open>An optional string inside an f-string: \<^verbatim>\<open>None\<close> is printed as \<^verbatim>\<open>None\<close>.\<close>

definition format_opt :: "ustring option \<Rightarrow> ustring" where
  "format_opt v = (case v of None \<Rightarrow> ustr ''None'' | Some t \<Rightarrow> t)"

text \<open>
  The result is the third component as it is on success, and otherwise the raised
  \<^verbatim>\<open>ValueError\<close> with its message.
\<close>

definition validate_or_raise :: "ustring option \<Rightarrow> (py_exception \<times> ustring) + ustring option" where
  "validate_or_raise s =
     (case is_valid_national_id s of
        (ok, reason, norm) \<Rightarrow>
          if ok then Inr norm
          else Inl (ValueError,
                 ustr ''Invalid national id: reason='' @ format_opt (map_option reason_text reason)
                 @ ustr '', normalized='' @ format_opt norm))"

definition is_valid :: "ustring option \<Rightarrow> bool" where
  "is_valid s = (case is_valid_national_id s of (ok, _, _) \<Rightarrow> ok)"

subsection \<open>The same functions with every raise written out\<close>

text \<open>
  The functions above fold the \<^verbatim>\<open>try\<close> statement into the result. To state that a
  call returns rather than raises, the source is given once more with the result type
  \<open>py_exception + _\<close>: each operation that can raise returns an exception or a value, an
  exception leaves the function unless a handler catches it, and the \<^verbatim>\<open>try\<close> statement is
  a handler.
\<close>

text \<open>The subscript \<^verbatim>\<open>m[k]\<close> of a dict raises \<^verbatim>\<open>KeyError\<close> for a missing key.\<close>

definition getitem :: "('k \<times> 'v) list \<Rightarrow> 'k \<Rightarrow> py_exception + 'v" where
  "getitem m k = (case map_of m k of None \<Rightarrow> Inl KeyError | Some v \<Rightarrow> Inr v)"

text \<open>
  The loop \<^verbatim>\<open>for ch in s\<close> of \<^verbatim>\<open>normalize_national_id\<close> over the remaining characters, with
  the list \<^verbatim>\<open>out_chars\<close> built so far; the test \<^verbatim>\<open>ch in _DIGIT_MAP\<close> guards the subscript.
\<close>

fun translate_loop :: "ustring \<Rightarrow> ustring \<Rightarrow> py_exception + ustring" where
  "translate_loop [] out_chars = Inr out_chars"
| "translate_loop (ch # rest) out_chars =
     (if ch \<in> set (map fst DIGIT_MAP)
      then
        (case getitem DIGIT_MAP ch of
           Inl e \<Rightarrow> Inl e
         | Inr d \<Rightarrow> translate_loop rest (out_chars @ [d]))
      else translate_loop rest (out_chars @ [ch]))"

definition normalize_national_id_raising :: "ustring option \<Rightarrow> py_exception + ustring" where
  "normalize_national_id_raising s =
     (case s of
        None \<Rightarrow> Inr []
      | Some t \<Rightarrow>
          (let s1 = strip t in
           if s1 = [] then Inr []
           else
             (case translate_loop s1 [] of
                Inl e \<Rightarrow> Inl e
              | Inr joined \<Rightarrow> Inr (filter latin_digit joined))))"

text \<open>
  \<^verbatim>\<open>except Exception\<close> catches the exceptions whose class derives from \<^verbatim>\<open>Exception\<close>; the
  three classes of the model do.
\<close>

fun is_Exception :: "py_exception \<Rightarrow> bool" where
  "is_Exception ValueError = True"
| "is_Exception IndexError = True"
| "is_Exception KeyError = True"

text \<open>
  A \<^verbatim>\<open>try\<close> statement with one \<^verbatim>\<open>except\<close> clause: an exception of the body that the clause
  catches is replaced by the clause's outcome, any other one goes on.
\<close>

definition try_except ::
    "py_exception + 'a \<Rightarrow> (py_exception \<Rightarrow> bool) \<Rightarrow> py_exception + 'a \<Rightarrow> py_exception + 'a" where
  "try_except body caught handler =
     (case body of
        Inl e \<Rightarrow> if caught e then handler else Inl e
      | Inr v \<Rightarrow> Inr v)"

text \<open>
  The \<^verbatim>\<open>try\<close> statement of \<^verbatim>\<open>is_valid_national_id\<close>. Its value is \<open>Some r\<close> when a
  \<^verbatim>\<open>return\<close> inside it returns \<open>r\<close>, and \<open>None\<close> when control falls through to the
  statement after it.
\<close>

definition guarded_checksum :: "ustring \<Rightarrow> py_exception + validation_result option" where
  "guarded_checksum norm =
     try_except
       (case checksum_ok norm of
          Inl e \<Rightarrow> Inl e
        | Inr ok \<Rightarrow>
            if \<not> ok then Inr (Some (False, Some Checksum, Some norm)) else Inr None)
       is_Exception
       (Inr (Some (False, Some ChecksumError, Some norm)))"

definition is_valid_national_id_raising ::
    "ustring option \<Rightarrow> py_exception + validation_result" where
  "is_valid_national_id_raising s =
     (if s = None then Inr (False, Some Empty, None)
      else
        (case normalize_national_id_raising s of
           Inl e \<Rightarrow> Inl e
         | Inr norm \<Rightarrow>
             if norm = [] then Inr (False, Some Empty, None)
             else if \<not> RE_10_DIGITS_match norm
               then Inr (False, Some LengthOrNotDigits, Some norm)
             else if norm \<in> set INVALID_SAME_DIGITS
               then Inr (False, Some AllSameDigits, Some norm)
             else
               (case guarded_checksum norm of
                  Inl e \<Rightarrow> Inl e
                | Inr (Some returned) \<Rightarrow> Inr returned
                | Inr None \<Rightarrow> Inr (True, None, Some norm))))"

section \<open>Specification-side definitions\<close>

text \<open>
  The definitions of this section follow the words of the specification; the theorems
  compare them with the functions above.
\<close>

subsection \<open>The normalizer as specified\<close>

definition persian_digit :: "uchar \<Rightarrow> bool" where
  "persian_digit c \<longleftrightarrow> 0x6F0 \<le> c \<and> c \<le> 0x6F9"

definition arabic_digit :: "uchar \<Rightarrow> bool" where
  "arabic_digit c \<longleftrightarrow> 0x660 \<le> c \<and> c \<le> 0x669"

text \<open>The latin digit corresponding to a digit glyph; other characters are unchanged.\<close>

definition to_latin :: "uchar \<Rightarrow> uchar" where
  "to_latin c =
     (if persian_digit c then 0x30 + (c - 0x6F0)
      else if arabic_digit c then 0x30 + (c - 0x660)
      else c)"

text \<open>
  Keep the digits of the three scripts, in their order, each as its latin digit, and
  drop every other character.
\<close>

definition normalize_spec :: "ustring \<Rightarrow> ustring" where
  "normalize_spec s =
     map to_latin (filter (\<lambda>c. latin_digit c \<or> persian_digit c \<or> arabic_digit c) s)"

subsection \<open>The check digit as specified\<close>

text \<open>The value of a latin digit character.\<close>

definition digit_value :: "uchar \<Rightarrow> int" where
  "digit_value c = int c - 0x30"

text \<open>\<open>S\<close>: the sum over \<open>i\<close> in \<open>0..8\<close> of \<open>d[i] * (10 - i)\<close>.\<close>

definition weighted_sum_spec :: "ustring \<Rightarrow> int" where
  "weighted_sum_spec d = (\<Sum>i = 0..<9. digit_value (d ! i) * (10 - int i))"

text \<open>With \<open>R = S mod 11\<close>: \<open>R\<close> when \<open>R < 2\<close>, and \<open>11 - R\<close> otherwise.\<close>

definition expected_check_digit :: "ustring \<Rightarrow> int" where
  "expected_check_digit d =
     (let R = weighted_sum_spec d mod 11 in if R < 2 then R else 11 - R)"

section \<open>Properties\<close>

subsection \<open>Latin digits and the digit map\<close>

lemma latin_isdecimal: "latin_digit c \<Longrightarrow> isdecimal c"
  by (simp add: latin_digit_def isdecimal_def decimal_blocks_def in_block_def)

lemma latin_py_int:
  assumes "latin_digit c"
  shows "py_int c = Inr (int c - 48)"
proof -
  from assms have b: "48 \<le> c" "c \<le> 57" by (simp_all add: latin_digit_def)
  then have "find (in_block c) decimal_blocks = Some (48, 57)"
    by (simp add: decimal_blocks_def in_block_def)
  moreover from b have "int ((c - 48) mod 10) = int c - 48" by simp
  ultimately show ?thesis by (simp add: py_int_def)
qed

lemma map_of_DIGIT_MAP:
  "map_of DIGIT_MAP c =
     (if 0x6F0 \<le> c \<and> c \<le> 0x6F9 then Some (c - 0x6F0 + 0x30)
      else if 0x660 \<le> c \<and> c \<le> 0x669 then Some (c - 0x660 + 0x30)
      else None)"
proof -
  consider "c < 0x660" | "0x660 \<le> c \<and> c \<le> 0x669" | "0x669 < c \<and> c < 0x6F0"
    | "0x6F0 \<le> c \<and> c \<le> 0x6F9" | "0x6F9 < c"
    by arith
  then show ?thesis
  proof cases
    case 2
    then have "c = 0x660 \<or> c = 0x661 \<or> c = 0x662 \<or> c = 0x663 \<or> c = 0x664 \<or>
               c = 0x665 \<or> c = 0x666 \<or> c = 0x667 \<or> c = 0x668 \<or> c = 0x669"
      by arith
    then show ?thesis by (auto simp: DIGIT_MAP_def)
  next
    case 4
    then have "c = 0x6F0 \<or> c = 0x6F1 \<or> c = 0x6F2 \<or> c = 0x6F3 \<or> c = 0x6F4 \<or>
               c = 0x6F5 \<or> c = 0x6F6 \<or> c = 0x6F7 \<or> c = 0x6F8 \<or> c = 0x6F9"
      by arith
    then show ?thesis by (auto simp: DIGIT_MAP_def)
  qed (simp_all add: DIGIT_MAP_def)
qed

lemma translate_char_to_latin: "translate_char c = to_latin c"
  by (simp add: translate_char_def map_of_DIGIT_MAP to_latin_def persian_digit_def arabic_digit_def)

lemma latin_to_latin:
  "latin_digit (to_latin c) \<longleftrightarrow> latin_digit c \<or> persian_digit c \<or> arabic_digit c"
  unfolding to_latin_def latin_digit_def persian_digit_def arabic_digit_def by auto

lemma to_latin_latin: "latin_digit c \<Longrightarrow> to_latin c = c"
  by (simp add: to_latin_def latin_digit_def persian_digit_def arabic_digit_def)

lemma isspace_no_digit: "isspace c \<Longrightarrow> \<not> latin_digit (translate_char c)"
  unfolding translate_char_to_latin latin_to_latin
  unfolding isspace_def latin_digit_def persian_digit_def arabic_digit_def by auto

subsection \<open>Normalization\<close>

lemma filter_dropWhile:
  assumes "\<And>x. Q x \<Longrightarrow> \<not> P x"
  shows "filter P (dropWhile Q xs) = filter P xs"
  using assms by (induction xs) auto

lemma filter_strip:
  assumes "\<And>x. isspace x \<Longrightarrow> \<not> P x"
  shows "filter P (strip s) = filter P s"
proof -
  have "filter P (strip s) = rev (filter P (dropWhile isspace (rev (dropWhile isspace s))))"
    by (simp add: strip_def rev_filter)
  also have "\<dots> = rev (filter P (rev (dropWhile isspace s)))"
    using assms by (simp add: filter_dropWhile)
  also have "\<dots> = filter P (dropWhile isspace s)"
    by (simp add: rev_filter)
  also have "\<dots> = filter P s"
    using assms by (simp add: filter_dropWhile)
  finally show ?thesis .
qed

text \<open>Stripping only removes characters that the last step would remove anyway.\<close>

lemma normalize_Some:
  "normalize_national_id (Some t) = filter latin_digit (map translate_char t)"
proof -
  have eq: "filter latin_digit (map translate_char (strip t))
            = filter latin_digit (map translate_char t)"
    by (simp add: filter_map filter_strip isspace_no_digit)
  show ?thesis
  proof (cases "strip t = []")
    case True
    with eq have "filter latin_digit (map translate_char t) = []" by simp
    with True show ?thesis by (simp add: normalize_national_id_def)
  next
    case False
    with eq show ?thesis by (simp add: normalize_national_id_def)
  qed
qed

lemma normalize_None: "normalize_national_id None = []"
  by (simp add: normalize_national_id_def)

lemma normalize_latin: "list_all latin_digit (normalize_national_id x)"
  by (cases x) (simp_all add: normalize_Some normalize_None list_all_iff)

lemma normalize_fixed:
  assumes "list_all latin_digit s"
  shows "normalize_national_id (Some s) = s"
proof -
  from assms have "map translate_char s = s"
    by (simp add: list_all_iff translate_char_to_latin to_latin_latin map_idI)
  with assms show ?thesis by (simp add: normalize_Some list_all_iff)
qed

lemma normalize_eq_spec: "normalize_national_id (Some s) = normalize_spec s"
  unfolding normalize_Some normalize_spec_def
  by (induction s) (simp_all add: translate_char_to_latin latin_to_latin)

subsection \<open>The checksum on latin digits\<close>

lemma int_digits_latin:
  "list_all latin_digit cs \<Longrightarrow> int_digits cs = Inr (map digit_value cs)"
  by (induction cs) (simp_all add: latin_py_int digit_value_def)

lemma weighted_sum_in_range:
  assumes "\<forall>i \<in> set idx. i < length ds"
  shows "weighted_sum ds idx s = Inr (s + (\<Sum>i\<leftarrow>idx. ds ! i * (10 - int i)))"
  using assms by (induction idx arbitrary: s) simp_all

lemma weighted_sum_spec_eq:
  assumes "9 \<le> length cs"
  shows "weighted_sum (map digit_value cs) [0..<9] 0 = Inr (weighted_sum_spec cs)"
proof -
  have "weighted_sum (map digit_value cs) [0..<9] 0
        = Inr (\<Sum>i\<leftarrow>[0..<9]. map digit_value cs ! i * (10 - int i))"
    using assms by (subst weighted_sum_in_range) simp_all
  also have "(\<Sum>i\<leftarrow>[0..<9]. map digit_value cs ! i * (10 - int i))
             = (\<Sum>i = 0..<9. map digit_value cs ! i * (10 - int i))"
    by (simp only: interv_sum_list_conv_sum_set_nat set_upt)
  also have "\<dots> = weighted_sum_spec cs"
    unfolding weighted_sum_spec_def using assms by (intro sum.cong) simp_all
  finally show ?thesis .
qed

lemma checksum_ok_latin:
  assumes "length d = 10" and "list_all latin_digit d"
  shows "checksum_ok d = Inr (digit_value (d ! 9) = expected_check_digit d)"
  using assms
  by (simp add: checksum_ok_def int_digits_latin weighted_sum_spec_eq expected_check_digit_def Let_def)

subsection \<open>The stages of validation\<close>

lemma RE_10_DIGITS_latin:
  assumes "list_all latin_digit s"
  shows "RE_10_DIGITS_match s \<longleftrightarrow> length s = 10"
proof -
  have "list_all isdecimal s"
    using assms by (simp add: list_all_iff latin_isdecimal)
  moreover have "s ! 10 \<noteq> 0x0A" if "length s = 11"
  proof -
    from that assms have "latin_digit (s ! 10)" by (simp add: list_all_length)
    then show ?thesis by (simp add: latin_digit_def)
  qed
  ultimately show ?thesis by (auto simp: RE_10_DIGITS_match_def)
qed

text \<open>
  The result of validation in terms of the normalized code and the specified check digit.
\<close>

lemma is_valid_national_id_stages:
  "is_valid_national_id x =
     (let n = normalize_national_id x in
      if n = [] then (False, Some Empty, None)
      else if length n \<noteq> 10 then (False, Some LengthOrNotDigits, Some n)
      else if n \<in> set INVALID_SAME_DIGITS then (False, Some AllSameDigits, Some n)
      else if digit_value (n ! 9) = expected_check_digit n then (True, None, Some n)
      else (False, Some Checksum, Some n))"
proof (cases x)
  case None
  then show ?thesis by (simp add: is_valid_national_id_def normalize_None)
next
  case (Some t)
  have l: "list_all latin_digit (normalize_national_id x)" by (rule normalize_latin)
  show ?thesis
    using Some RE_10_DIGITS_latin [OF l] checksum_ok_latin [OF _ l]
    by (simp add: is_valid_national_id_def Let_def)
qed

lemma is_valid_national_id_logged_result:
  "fst (is_valid_national_id_logged s) = is_valid_national_id s"
  by (simp add: is_valid_national_id_logged_def is_valid_national_id_def Let_def
      split: sum.splits)

lemma INVALID_SAME_DIGITS_iff:
  "s \<in> set INVALID_SAME_DIGITS \<longleftrightarrow> (\<exists>i<10. s = replicate 10 (0x30 + i))"
  by (auto simp: INVALID_SAME_DIGITS_def)

lemma INVALID_SAME_DIGITS_same:
  assumes "s \<in> set INVALID_SAME_DIGITS"
  shows "s ! 1 = s ! 0"
  using assms by (auto simp: INVALID_SAME_DIGITS_iff)

lemma INVALID_SAME_DIGITS_latin:
  assumes "s \<in> set INVALID_SAME_DIGITS"
  shows "length s = 10" and "list_all latin_digit s"
  using assms by (auto simp: INVALID_SAME_DIGITS_iff list_all_iff latin_digit_def)

lemma INVALID_SAME_DIGITS_list:
  "INVALID_SAME_DIGITS =
     [ustr ''0000000000'', ustr ''1111111111'', ustr ''2222222222'', ustr ''3333333333'',
      ustr ''4444444444'', ustr ''5555555555'', ustr ''6666666666'', ustr ''7777777777'',
      ustr ''8888888888'', ustr ''9999999999'']"
  by (simp add: INVALID_SAME_DIGITS_def ustr_def upt_rec numeral_eq_Suc)

subsection \<open>The scenarios of the specification\<close>

lemma ustr_0499370899: "ustr ''0499370899'' = [48, 52, 57, 57, 51, 55, 48, 56, 57, 57]"
  by (simp add: ustr_def)

lemma ustr_1234567890: "ustr ''1234567890'' = [49, 50, 51, 52, 53, 54, 55, 56, 57, 48]"
  by (simp add: ustr_def)

lemma expected_0499370899: "expected_check_digit (ustr ''0499370899'') = 9"
  by (simp add: ustr_0499370899 expected_check_digit_def weighted_sum_spec_def digit_value_def
      sum.atLeast0_lessThan_Suc numeral_eq_Suc)

lemma expected_1234567890: "expected_check_digit (ustr ''1234567890'') = 1"
  by (simp add: ustr_1234567890 expected_check_digit_def weighted_sum_spec_def digit_value_def
      sum.atLeast0_lessThan_Suc numeral_eq_Suc)

lemma latin_0499370899: "list_all latin_digit (ustr ''0499370899'')"
  by (simp add: ustr_0499370899 latin_digit_def)

lemma latin_1234567890: "list_all latin_digit (ustr ''1234567890'')"
  by (simp add: ustr_1234567890 latin_digit_def)

lemma not_same_0499370899: "ustr ''0499370899'' \<notin> set INVALID_SAME_DIGITS"
  using INVALID_SAME_DIGITS_same [of "ustr ''0499370899''"] by (auto simp: ustr_0499370899)

lemma not_same_1234567890: "ustr ''1234567890'' \<notin> set INVALID_SAME_DIGITS"
  using INVALID_SAME_DIGITS_same [of "ustr ''1234567890''"] by (auto simp: ustr_1234567890)

lemma valid_0499370899:
  "is_valid_national_id (Some (ustr ''0499370899'')) = (True, None, Some (ustr ''0499370899''))"
  unfolding is_valid_national_id_stages normalize_fixed [OF latin_0499370899] Let_def
  using not_same_0499370899 expected_0499370899
  by (simp add: ustr_0499370899 digit_value_def)

lemma checksum_1234567890:
  "is_valid_national_id (Some (ustr ''1234567890''))
   = (False, Some Checksum, Some (ustr ''1234567890''))"
  unfolding is_valid_national_id_stages normalize_fixed [OF latin_1234567890] Let_def
  using not_same_1234567890 expected_1234567890
  by (simp add: ustr_1234567890 digit_value_def)

lemma normalize_12_34: "normalize_national_id (Some (ustr ''12-34'')) = ustr ''1234''"
  by (simp add: normalize_Some translate_char_to_latin to_latin_def persian_digit_def
      arabic_digit_def latin_digit_def ustr_def)

lemma short_12_34:
  "is_valid_national_id (Some (ustr ''12-34''))
   = (False, Some LengthOrNotDigits, Some (ustr ''1234''))"
  unfolding is_valid_national_id_stages normalize_12_34 Let_def
  by (simp add: ustr_def)

lemma normalize_persian_0499370899:
  "normalize_national_id
     (Some [0x6F0, 0x6F4, 0x6F9, 0x6F9, 0x6F3, 0x6F7, 0x6F0, 0x6F8, 0x6F9, 0x6F9])
   = ustr ''0499370899''"
  by (simp add: normalize_Some translate_char_to_latin to_latin_def persian_digit_def
      arabic_digit_def latin_digit_def ustr_def)

lemma valid_persian_0499370899:
  "is_valid_national_id
     (Some [0x6F0, 0x6F4, 0x6F9, 0x6F9, 0x6F3, 0x6F7, 0x6F0, 0x6F8, 0x6F9, 0x6F9])
   = (True, None, Some (ustr ''0499370899''))"
  unfolding is_valid_national_id_stages normalize_persian_0499370899 Let_def
  using not_same_0499370899 expected_0499370899
  by (simp add: ustr_0499370899 digit_value_def)

text \<open>Outside the structural gate the checksum computation does raise.\<close>

lemma checksum_ok_not_digit: "checksum_ok (ustr ''12-34'') = Inl ValueError"
proof -
  have "py_int 45 = Inl ValueError"
    by (simp add: py_int_def decimal_blocks_def in_block_def)
  then show ?thesis
    by (simp add: checksum_ok_def ustr_def latin_py_int latin_digit_def)
qed

lemma checksum_ok_too_short: "checksum_ok (ustr ''1234'') = Inl IndexError"
proof -
  have u: "[0..<9] = [0, 1, 2, 3, 4] @ [5..<9]"
    by (simp add: upt_rec)
  have l: "list_all latin_digit (ustr ''1234'')"
    by (simp add: ustr_def latin_digit_def)
  have w: "weighted_sum (map digit_value (ustr ''1234'')) (0 # 1 # 2 # 3 # 4 # [5..<9]) 0
           = Inl IndexError"
    by (simp add: ustr_def)
  show ?thesis
    using w by (simp add: checksum_ok_def int_digits_latin [OF l] u)
qed

section \<open>The claims\<close>

text \<open>
  C1. For a string \<open>d\<close> of exactly ten latin digits, \<open>checksum_ok\<close> returns, and returns
  true exactly when the tenth digit equals the expected check digit of the specification
  (\<open>S\<close> the weighted sum of the first nine digits with weights 10 down to 2,
  \<open>R = S mod 11\<close>, expected \<open>R\<close> if \<open>R < 2\<close> and \<open>11 - R\<close> otherwise). Consequently
  \<open>is_valid_national_id\<close> gives the reason \<open>checksum\<close> exactly when the normalized input
  has ten digits, is not a repeated digit, and this equality fails.
\<close>

theorem checksum_verifier_spec:
  "(length d = 10 \<and> list_all latin_digit d \<longrightarrow>
      checksum_ok d = Inr (digit_value (d ! 9) = expected_check_digit d)) \<and>
   (fst (snd (is_valid_national_id x)) = Some Checksum \<longleftrightarrow>
      length (normalize_national_id x) = 10 \<and>
      normalize_national_id x \<notin> set INVALID_SAME_DIGITS \<and>
      digit_value (normalize_national_id x ! 9) \<noteq> expected_check_digit (normalize_national_id x))"
proof (intro conjI impI)
  assume "length d = 10 \<and> list_all latin_digit d"
  then show "checksum_ok d = Inr (digit_value (d ! 9) = expected_check_digit d)"
    by (simp add: checksum_ok_latin)
next
  show "fst (snd (is_valid_national_id x)) = Some Checksum \<longleftrightarrow>
      length (normalize_national_id x) = 10 \<and>
      normalize_national_id x \<notin> set INVALID_SAME_DIGITS \<and>
      digit_value (normalize_national_id x ! 9) \<noteq> expected_check_digit (normalize_national_id x)"
    unfolding is_valid_national_id_stages Let_def by auto
qed

theorem checksum_verifier_spec_witness:
  "length (ustr ''0499370899'') = 10 \<and> list_all latin_digit (ustr ''0499370899'') \<and>
   checksum_ok (ustr ''0499370899'') = Inr True \<and>
   fst (snd (is_valid_national_id (Some (ustr ''1234567890'')))) = Some Checksum \<and>
   length (normalize_national_id (Some (ustr ''1234567890''))) = 10"
proof -
  have l: "length (ustr ''0499370899'') = 10" by (simp add: ustr_def)
  have v: "digit_value (ustr ''0499370899'' ! 9) = 9"
    by (simp add: ustr_0499370899 digit_value_def)
  from checksum_verifier_spec [of "ustr ''0499370899''" "Some (ustr ''1234567890'')"]
  show ?thesis
    using l v latin_0499370899 expected_0499370899 checksum_1234567890
    by simp
qed

text \<open>
  C9. \<open>is_valid_national_id\<close> accepts \<open>0499370899\<close> and returns it as the normalized code;
  the same digits written with Persian glyphs (U+06F0..U+06F9) normalize to
  \<open>0499370899\<close> and give the same successful result.
\<close>

theorem scenario_0499370899:
  "is_valid_national_id (Some (ustr ''0499370899''))
     = (True, None, Some (ustr ''0499370899'')) \<and>
   normalize_national_id
     (Some [0x6F0, 0x6F4, 0x6F9, 0x6F9, 0x6F3, 0x6F7, 0x6F0, 0x6F8, 0x6F9, 0x6F9])
     = ustr ''0499370899'' \<and>
   is_valid_national_id
     (Some [0x6F0, 0x6F4, 0x6F9, 0x6F9, 0x6F3, 0x6F7, 0x6F0, 0x6F8, 0x6F9, 0x6F9])
     = (True, None, Some (ustr ''0499370899''))"
  using valid_0499370899 normalize_persian_0499370899 valid_persian_0499370899
  by (intro conjI)

lemma normalize_empty_iff:
  "normalize_national_id (Some t) = [] \<longleftrightarrow>
     list_all (\<lambda>c. \<not> (latin_digit c \<or> persian_digit c \<or> arabic_digit c)) t"
  by (simp add: normalize_eq_spec normalize_spec_def filter_empty_conv list_all_iff)

text \<open>
  C2. In the result of \<open>is_valid_national_id\<close> the reason is present exactly when the
  flag is false; when normalization yields a nonempty string, that string is the
  returned normalized code, whatever stage fails later; the normalized code is absent
  exactly in the \<open>empty\<close> case, which is when the input is absent or holds no digit.
\<close>

theorem result_invariant:
  "(fst (snd (is_valid_national_id x)) \<noteq> None \<longleftrightarrow> \<not> fst (is_valid_national_id x)) \<and>
   (normalize_national_id x \<noteq> [] \<longrightarrow>
      snd (snd (is_valid_national_id x)) = Some (normalize_national_id x)) \<and>
   (snd (snd (is_valid_national_id x)) = None \<longleftrightarrow>
      fst (snd (is_valid_national_id x)) = Some Empty) \<and>
   (snd (snd (is_valid_national_id x)) = None \<longleftrightarrow>
      (case x of
         None \<Rightarrow> True
       | Some t \<Rightarrow> list_all (\<lambda>c. \<not> (latin_digit c \<or> persian_digit c \<or> arabic_digit c)) t))"
proof -
  have e: "normalize_national_id x = [] \<longleftrightarrow>
      (case x of
         None \<Rightarrow> True
       | Some t \<Rightarrow> list_all (\<lambda>c. \<not> (latin_digit c \<or> persian_digit c \<or> arabic_digit c)) t)"
    by (cases x) (simp_all add: normalize_None normalize_empty_iff)
  have n: "snd (snd (is_valid_national_id x)) = None \<longleftrightarrow> normalize_national_id x = []"
    unfolding is_valid_national_id_stages Let_def by simp
  have 1: "fst (snd (is_valid_national_id x)) \<noteq> None \<longleftrightarrow> \<not> fst (is_valid_national_id x)"
    unfolding is_valid_national_id_stages Let_def by simp
  have 2: "normalize_national_id x \<noteq> [] \<longrightarrow>
      snd (snd (is_valid_national_id x)) = Some (normalize_national_id x)"
    unfolding is_valid_national_id_stages Let_def by simp
  have 3: "snd (snd (is_valid_national_id x)) = None \<longleftrightarrow>
      fst (snd (is_valid_national_id x)) = Some Empty"
    unfolding is_valid_national_id_stages Let_def by simp
  from 1 2 3 n e show ?thesis by blast
qed

theorem result_invariant_witness:
  "normalize_national_id (Some (ustr ''12-34'')) \<noteq> [] \<and>
   is_valid_national_id (Some (ustr ''12-34''))
     = (False, Some LengthOrNotDigits, Some (ustr ''1234'')) \<and>
   snd (snd (is_valid_national_id (Some (ustr ''12-34''))))
     = Some (normalize_national_id (Some (ustr ''12-34'')))"
proof -
  have ne: "normalize_national_id (Some (ustr ''12-34'')) \<noteq> []"
    unfolding normalize_12_34 by (simp add: ustr_def)
  from result_invariant [of "Some (ustr ''12-34'')"] ne
  have "snd (snd (is_valid_national_id (Some (ustr ''12-34''))))
     = Some (normalize_national_id (Some (ustr ''12-34'')))"
    by blast
  with ne short_12_34 show ?thesis by blast
qed

text \<open>
  C3. \<open>INVALID_SAME_DIGITS\<close> holds the ten strings \<open>0000000000\<close> to \<open>9999999999\<close>; each of
  them is rejected with the reason \<open>all_same_digits\<close> and the string itself as normalized
  code, and the run makes no call of \<open>_checksum_ok\<close>.
\<close>

theorem repeated_digits_rejected:
  "INVALID_SAME_DIGITS =
     [ustr ''0000000000'', ustr ''1111111111'', ustr ''2222222222'', ustr ''3333333333'',
      ustr ''4444444444'', ustr ''5555555555'', ustr ''6666666666'', ustr ''7777777777'',
      ustr ''8888888888'', ustr ''9999999999''] \<and>
   (\<forall>s \<in> set INVALID_SAME_DIGITS.
      is_valid_national_id (Some s) = (False, Some AllSameDigits, Some s) \<and>
      is_valid_national_id_logged (Some s) = ((False, Some AllSameDigits, Some s), []))"
proof (intro conjI ballI)
  show "INVALID_SAME_DIGITS =
     [ustr ''0000000000'', ustr ''1111111111'', ustr ''2222222222'', ustr ''3333333333'',
      ustr ''4444444444'', ustr ''5555555555'', ustr ''6666666666'', ustr ''7777777777'',
      ustr ''8888888888'', ustr ''9999999999'']"
    by (rule INVALID_SAME_DIGITS_list)
next
  fix s assume s: "s \<in> set INVALID_SAME_DIGITS"
  then have len: "length s = 10" and lat: "list_all latin_digit s"
    by (rule INVALID_SAME_DIGITS_latin)+
  have n: "normalize_national_id (Some s) = s"
    using lat by (rule normalize_fixed)
  from len have ne: "s \<noteq> []" by auto
  have m: "RE_10_DIGITS_match s"
    using len by (simp add: RE_10_DIGITS_latin [OF lat])
  show "is_valid_national_id (Some s) = (False, Some AllSameDigits, Some s)"
    using s n ne m by (simp add: is_valid_national_id_def)
  show "is_valid_national_id_logged (Some s) = ((False, Some AllSameDigits, Some s), [])"
    using s n ne m by (simp add: is_valid_national_id_logged_def)
qed

theorem repeated_digits_rejected_witness:
  "ustr ''1111111111'' \<in> set INVALID_SAME_DIGITS \<and>
   is_valid_national_id (Some (ustr ''1111111111''))
     = (False, Some AllSameDigits, Some (ustr ''1111111111'')) \<and>
   is_valid_national_id_logged (Some (ustr ''1111111111''))
     = ((False, Some AllSameDigits, Some (ustr ''1111111111'')), [])"
proof -
  have m: "ustr ''1111111111'' \<in> set INVALID_SAME_DIGITS"
    by (simp add: INVALID_SAME_DIGITS_list)
  with repeated_digits_rejected show ?thesis by blast
qed

text \<open>
  C4. When the normalized input passes the pattern \<open>_RE_10_DIGITS\<close> it is a string of
  exactly ten latin digits and \<open>_checksum_ok\<close> returns on it without raising; hence
  \<open>is_valid_national_id\<close> never gives the reason \<open>checksum_error\<close>.
\<close>

theorem checksum_error_unreachable:
  "(RE_10_DIGITS_match (normalize_national_id x) \<longrightarrow>
      length (normalize_national_id x) = 10 \<and>
      list_all latin_digit (normalize_national_id x) \<and>
      (\<exists>b. checksum_ok (normalize_national_id x) = Inr b)) \<and>
   fst (snd (is_valid_national_id x)) \<noteq> Some ChecksumError"
proof (intro conjI impI)
  have l: "list_all latin_digit (normalize_national_id x)" by (rule normalize_latin)
  assume "RE_10_DIGITS_match (normalize_national_id x)"
  then have len: "length (normalize_national_id x) = 10"
    by (simp add: RE_10_DIGITS_latin [OF l])
  then show "length (normalize_national_id x) = 10" .
  show "list_all latin_digit (normalize_national_id x)" by (rule l)
  show "\<exists>b. checksum_ok (normalize_national_id x) = Inr b"
    using checksum_ok_latin [OF len l] by blast
next
  show "fst (snd (is_valid_national_id x)) \<noteq> Some ChecksumError"
    unfolding is_valid_national_id_stages Let_def by simp
qed

theorem checksum_error_unreachable_witness:
  "RE_10_DIGITS_match (normalize_national_id (Some (ustr ''1234567890''))) \<and>
   checksum_ok (normalize_national_id (Some (ustr ''1234567890''))) = Inr False \<and>
   fst (snd (is_valid_national_id (Some (ustr ''1234567890'')))) \<noteq> Some ChecksumError"
proof -
  let ?n = "ustr ''1234567890''"
  have n: "normalize_national_id (Some ?n) = ?n"
    by (rule normalize_fixed [OF latin_1234567890])
  have len: "length ?n = 10" by (simp add: ustr_def)
  have m: "RE_10_DIGITS_match ?n"
    using len by (simp add: RE_10_DIGITS_latin [OF latin_1234567890])
  have v: "digit_value (?n ! 9) = 0"
    by (simp add: ustr_1234567890 digit_value_def)
  have c: "checksum_ok ?n = Inr False"
    using checksum_ok_latin [OF len latin_1234567890] v expected_1234567890 by simp
  from checksum_error_unreachable [of "Some ?n"] m c show ?thesis
    unfolding n by blast
qed

text \<open>
  C5. \<open>normalize_national_id\<close> is the normalizer of the specification: it keeps the
  latin, Persian and Arabic digits in their order, each as its latin digit. In detail,
  it distributes over concatenation (so the order of the input is kept), it maps the
  \<open>k\<close>-th Persian digit U+06F0+\<open>k\<close> and the \<open>k\<close>-th Arabic digit U+0660+\<open>k\<close> to the latin
  digit \<open>k\<close>, keeps a latin digit, and removes any other character.
\<close>

theorem normalize_maps_digits:
  "normalize_national_id (Some s) = normalize_spec s \<and>
   normalize_national_id (Some (s @ t))
     = normalize_national_id (Some s) @ normalize_national_id (Some t) \<and>
   (k < 10 \<longrightarrow>
      normalize_national_id (Some [0x6F0 + k]) = [0x30 + k] \<and>
      normalize_national_id (Some [0x660 + k]) = [0x30 + k] \<and>
      normalize_national_id (Some [0x30 + k]) = [0x30 + k]) \<and>
   (\<not> (latin_digit c \<or> persian_digit c \<or> arabic_digit c) \<longrightarrow>
      normalize_national_id (Some [c]) = [])"
proof (intro conjI impI)
  show "normalize_national_id (Some s) = normalize_spec s"
    by (rule normalize_eq_spec)
  show "normalize_national_id (Some (s @ t))
     = normalize_national_id (Some s) @ normalize_national_id (Some t)"
    by (simp add: normalize_Some)
next
  assume k: "k < 10"
  then show "normalize_national_id (Some [0x6F0 + k]) = [0x30 + k]"
    by (simp add: normalize_eq_spec normalize_spec_def to_latin_def persian_digit_def)
  from k show "normalize_national_id (Some [0x660 + k]) = [0x30 + k]"
    by (simp add: normalize_eq_spec normalize_spec_def to_latin_def persian_digit_def
        arabic_digit_def)
  from k show "normalize_national_id (Some [0x30 + k]) = [0x30 + k]"
    by (simp add: normalize_eq_spec normalize_spec_def to_latin_def persian_digit_def
        arabic_digit_def latin_digit_def)
next
  assume "\<not> (latin_digit c \<or> persian_digit c \<or> arabic_digit c)"
  then show "normalize_national_id (Some [c]) = []"
    by (simp add: normalize_eq_spec normalize_spec_def)
qed

theorem normalize_maps_digits_witness:
  "normalize_national_id (Some [0x6F1, 0x2D, 0x662, 0x33]) = ustr ''123'' \<and>
   normalize_national_id (Some ([0x6F1, 0x2D] @ [0x662, 0x33]))
     = normalize_national_id (Some [0x6F1, 0x2D]) @ normalize_national_id (Some [0x662, 0x33]) \<and>
   (4::nat) < 10 \<and>
   normalize_national_id (Some [0x6F0 + 4]) = [0x30 + 4] \<and>
   normalize_national_id (Some [0x660 + 4]) = [0x30 + 4] \<and>
   \<not> (latin_digit 0x2D \<or> persian_digit 0x2D \<or> arabic_digit 0x2D) \<and>
   normalize_national_id (Some [0x2D]) = []"
proof -
  have s: "normalize_spec [0x6F1, 0x2D, 0x662, 0x33] = ustr ''123''"
    by (simp add: normalize_spec_def to_latin_def persian_digit_def arabic_digit_def
        latin_digit_def ustr_def)
  have c: "\<not> (latin_digit 0x2D \<or> persian_digit 0x2D \<or> arabic_digit 0x2D)"
    by (simp add: persian_digit_def arabic_digit_def latin_digit_def)
  have k: "(4::nat) < 10" by simp
  from normalize_maps_digits [of "[0x6F1, 0x2D, 0x662, 0x33]" "[]" 4 "0x2D"]
       normalize_maps_digits [of "[0x6F1, 0x2D]" "[0x662, 0x33]" 4 "0x2D"]
       s c k
  show ?thesis by simp
qed

text \<open>
  C6. Normalizing a normalized string changes nothing, for every input (the absent one
  included), and every string of latin digits only is a fixed point of
  \<open>normalize_national_id\<close>.
\<close>

theorem normalize_idempotent:
  "normalize_national_id (Some (normalize_national_id x)) = normalize_national_id x \<and>
   (list_all latin_digit s \<longrightarrow> normalize_national_id (Some s) = s)"
  using normalize_fixed [OF normalize_latin [of x]] normalize_fixed [of s] by blast

theorem normalize_idempotent_witness:
  "list_all latin_digit (ustr ''0499370899'') \<and>
   normalize_national_id (Some (ustr ''0499370899'')) = ustr ''0499370899'' \<and>
   normalize_national_id (Some (normalize_national_id (Some (ustr ''12-34''))))
     = normalize_national_id (Some (ustr ''12-34''))"
  using normalize_idempotent [of "Some (ustr ''12-34'')" "ustr ''0499370899''"]
    latin_0499370899
  by blast

subsection \<open>No exception leaves the functions\<close>

text \<open>An unguarded subscript would raise on a character that is no key of the map.\<close>

lemma getitem_missing: "getitem DIGIT_MAP 0x2D = Inl KeyError"
  by (simp add: getitem_def DIGIT_MAP_def)

lemma getitem_present:
  assumes "k \<in> set (map fst m)"
  shows "\<exists>v. map_of m k = Some v \<and> getitem m k = Inr v"
proof -
  from assms have "map_of m k \<noteq> None"
    by (simp add: map_of_eq_None_iff)
  then show ?thesis by (auto simp: getitem_def)
qed

lemma translate_loop_returns:
  "translate_loop s out_chars = Inr (out_chars @ map translate_char s)"
proof (induction s arbitrary: out_chars)
  case Nil
  show ?case by simp
next
  case (Cons ch rest)
  show ?case
  proof (cases "ch \<in> set (map fst DIGIT_MAP)")
    case True
    from getitem_present [OF True] obtain d
      where d: "map_of DIGIT_MAP ch = Some d" "getitem DIGIT_MAP ch = Inr d"
      by blast
    then have "translate_char ch = d" by (simp add: translate_char_def)
    with True d Cons.IH [of "out_chars @ [d]"] show ?thesis by simp
  next
    case False
    then have "map_of DIGIT_MAP ch = None"
      by (simp add: map_of_eq_None_iff)
    then have "translate_char ch = ch" by (simp add: translate_char_def)
    with False Cons.IH [of "out_chars @ [ch]"] show ?thesis by simp
  qed
qed

lemma normalize_national_id_raising_returns:
  "normalize_national_id_raising x = Inr (normalize_national_id x)"
  by (cases x)
    (simp_all add: normalize_national_id_raising_def normalize_national_id_def
      translate_loop_returns Let_def)

lemma guarded_checksum_returns:
  "guarded_checksum n =
     Inr (case checksum_ok n of
            Inl e \<Rightarrow> Some (False, Some ChecksumError, Some n)
          | Inr ok \<Rightarrow> if \<not> ok then Some (False, Some Checksum, Some n) else None)"
proof (cases "checksum_ok n")
  case (Inl e)
  then show ?thesis
    by (cases e) (simp_all add: guarded_checksum_def try_except_def)
next
  case (Inr ok)
  then show ?thesis
    by (simp add: guarded_checksum_def try_except_def)
qed

lemma is_valid_national_id_raising_returns:
  "is_valid_national_id_raising x = Inr (is_valid_national_id x)"
  by (simp add: is_valid_national_id_raising_def is_valid_national_id_def
      normalize_national_id_raising_returns guarded_checksum_returns Let_def
      split: sum.splits)

text \<open>
  C7. With every raise of the source written out, \<open>is_valid_national_id\<close> still returns
  for every input, absent, empty or malformed, and never raises: normalization returns,
  the \<^verbatim>\<open>try\<close> statement returns for every string, also one on which \<open>_checksum_ok\<close>
  raises, and the whole function returns the structured result that the stages of
  validation determine. For the absent input and for the empty string that result is
  \<open>(False, empty, None)\<close>.
\<close>

theorem is_valid_national_id_never_raises:
  "normalize_national_id_raising x = Inr (normalize_national_id x) \<and>
   guarded_checksum n =
     Inr (case checksum_ok n of
            Inl e \<Rightarrow> Some (False, Some ChecksumError, Some n)
          | Inr ok \<Rightarrow> if \<not> ok then Some (False, Some Checksum, Some n) else None) \<and>
   is_valid_national_id_raising x = Inr (is_valid_national_id x) \<and>
   is_valid_national_id_raising x =
     Inr (if normalize_national_id x = [] then (False, Some Empty, None)
          else if length (normalize_national_id x) \<noteq> 10
            then (False, Some LengthOrNotDigits, Some (normalize_national_id x))
          else if normalize_national_id x \<in> set INVALID_SAME_DIGITS
            then (False, Some AllSameDigits, Some (normalize_national_id x))
          else if digit_value (normalize_national_id x ! 9)
                  = expected_check_digit (normalize_national_id x)
            then (True, None, Some (normalize_national_id x))
          else (False, Some Checksum, Some (normalize_national_id x))) \<and>
   is_valid_national_id_raising None = Inr (False, Some Empty, None) \<and>
   is_valid_national_id_raising (Some []) = Inr (False, Some Empty, None)"
proof (intro conjI)
  show "normalize_national_id_raising x = Inr (normalize_national_id x)"
    by (rule normalize_national_id_raising_returns)
  show "guarded_checksum n =
     Inr (case checksum_ok n of
            Inl e \<Rightarrow> Some (False, Some ChecksumError, Some n)
          | Inr ok \<Rightarrow> if \<not> ok then Some (False, Some Checksum, Some n) else None)"
    by (rule guarded_checksum_returns)
  show "is_valid_national_id_raising x = Inr (is_valid_national_id x)"
    by (rule is_valid_national_id_raising_returns)
  show "is_valid_national_id_raising x =
     Inr (if normalize_national_id x = [] then (False, Some Empty, None)
          else if length (normalize_national_id x) \<noteq> 10
            then (False, Some LengthOrNotDigits, Some (normalize_national_id x))
          else if normalize_national_id x \<in> set INVALID_SAME_DIGITS
            then (False, Some AllSameDigits, Some (normalize_national_id x))
          else if digit_value (normalize_national_id x ! 9)
                  = expected_check_digit (normalize_national_id x)
            then (True, None, Some (normalize_national_id x))
          else (False, Some Checksum, Some (normalize_national_id x)))"
    unfolding is_valid_national_id_raising_returns is_valid_national_id_stages Let_def
    by (rule refl)
  show "is_valid_national_id_raising None = Inr (False, Some Empty, None)"
    by (simp add: is_valid_national_id_raising_def)
  show "is_valid_national_id_raising (Some []) = Inr (False, Some Empty, None)"
    by (simp add: is_valid_national_id_raising_def normalize_national_id_raising_def strip_def)
qed

theorem is_valid_national_id_never_raises_witness:
  "checksum_ok (ustr ''12-34'') = Inl ValueError \<and>
   guarded_checksum (ustr ''12-34'')
     = Inr (Some (False, Some ChecksumError, Some (ustr ''12-34''))) \<and>
   normalize_national_id_raising (Some (ustr ''12-34'')) = Inr (ustr ''1234'') \<and>
   is_valid_national_id_raising (Some (ustr ''12-34''))
     = Inr (False, Some LengthOrNotDigits, Some (ustr ''1234''))"
  using is_valid_national_id_never_raises [of "Some (ustr ''12-34'')" "ustr ''12-34''"]
    checksum_ok_not_digit normalize_12_34 short_12_34
  by simp

text \<open>
  C8. When validation succeeds \<open>validate_or_raise\<close> returns the normalized code.
  When it fails, \<open>validate_or_raise\<close> raises \<open>ValueError\<close> with the message
  \<open>Invalid national id: reason=R, normalized=N\<close>, where \<open>R\<close> is the reason and \<open>N\<close> the
  normalized code as printed (\<open>None\<close> when it is absent), so the message contains both.
  For \<open>1234567890\<close> the message contains \<open>checksum\<close> and \<open>1234567890\<close>.
\<close>

theorem validate_or_raise_spec:
  "(is_valid x \<longrightarrow> validate_or_raise x = Inr (Some (normalize_national_id x))) \<and>
   (\<not> is_valid x \<longrightarrow>
      (\<exists>r msg.
         fst (snd (is_valid_national_id x)) = Some r \<and>
         validate_or_raise x = Inl (ValueError, msg) \<and>
         msg = ustr ''Invalid national id: reason='' @ reason_text r @ ustr '', normalized=''
               @ format_opt (snd (snd (is_valid_national_id x))) \<and>
         sublist (reason_text r) msg \<and>
         sublist (format_opt (snd (snd (is_valid_national_id x)))) msg)) \<and>
   (\<exists>msg.
      validate_or_raise (Some (ustr ''1234567890'')) = Inl (ValueError, msg) \<and>
      msg = ustr ''Invalid national id: reason=checksum, normalized=1234567890'' \<and>
      sublist (ustr ''checksum'') msg \<and>
      sublist (ustr ''1234567890'') msg)"
proof (intro conjI impI)
  assume "is_valid x"
  then show "validate_or_raise x = Inr (Some (normalize_national_id x))"
    unfolding is_valid_def validate_or_raise_def is_valid_national_id_stages Let_def
    by (simp split: if_splits)
next
  assume inv: "\<not> is_valid x"
  obtain ok reason norm where res: "is_valid_national_id x = (ok, reason, norm)"
    by (cases "is_valid_national_id x")
  from inv res have ok: "\<not> ok" by (simp add: is_valid_def)
  from res ok obtain r where r: "reason = Some r"
    unfolding is_valid_national_id_stages Let_def by (auto split: if_splits)
  let ?msg = "ustr ''Invalid national id: reason='' @ reason_text r @ ustr '', normalized=''
               @ format_opt norm"
  have v: "validate_or_raise x = Inl (ValueError, ?msg)"
    using res ok r by (simp add: validate_or_raise_def format_opt_def)
  have s1: "sublist (reason_text r) ?msg"
    by (rule sublist_appendI)
  have "sublist (format_opt norm)
     ((ustr ''Invalid national id: reason='' @ reason_text r @ ustr '', normalized='')
       @ format_opt norm @ [])"
    by (rule sublist_appendI)
  then have s2: "sublist (format_opt norm) ?msg" by simp
  from res r v s1 s2
  show "\<exists>r msg.
         fst (snd (is_valid_national_id x)) = Some r \<and>
         validate_or_raise x = Inl (ValueError, msg) \<and>
         msg = ustr ''Invalid national id: reason='' @ reason_text r @ ustr '', normalized=''
               @ format_opt (snd (snd (is_valid_national_id x))) \<and>
         sublist (reason_text r) msg \<and>
         sublist (format_opt (snd (snd (is_valid_national_id x)))) msg"
    by simp
next
  let ?msg = "ustr ''Invalid national id: reason=checksum, normalized=1234567890''"
  have m: "?msg = ustr ''Invalid national id: reason='' @ ustr ''checksum''
             @ ustr '', normalized='' @ ustr ''1234567890''"
    by (simp add: ustr_def)
  have v: "validate_or_raise (Some (ustr ''1234567890'')) = Inl (ValueError, ?msg)"
    unfolding m by (simp add: validate_or_raise_def checksum_1234567890 format_opt_def)
  have s1: "sublist (ustr ''checksum'') ?msg"
    unfolding m by (rule sublist_appendI)
  have "sublist (ustr ''1234567890'')
     ((ustr ''Invalid national id: reason='' @ ustr ''checksum'' @ ustr '', normalized='')
       @ ustr ''1234567890'' @ [])"
    by (rule sublist_appendI)
  then have s2: "sublist (ustr ''1234567890'') ?msg"
    unfolding m by simp
  from v s1 s2
  show "\<exists>msg.
      validate_or_raise (Some (ustr ''1234567890'')) = Inl (ValueError, msg) \<and>
      msg = ustr ''Invalid national id: reason=checksum, normalized=1234567890'' \<and>
      sublist (ustr ''checksum'') msg \<and>
      sublist (ustr ''1234567890'') msg"
    by blast
qed

theorem validate_or_raise_spec_witness:
  "is_valid (Some (ustr ''0499370899'')) \<and>
   validate_or_raise (Some (ustr ''0499370899'')) = Inr (Some (ustr ''0499370899'')) \<and>
   \<not> is_valid (Some (ustr ''12-34'')) \<and>
   validate_or_raise (Some (ustr ''12-34''))
     = Inl (ValueError,
         ustr ''Invalid national id: reason=length_or_not_digits, normalized=1234'')"
proof -
  have a: "is_valid (Some (ustr ''0499370899''))"
    by (simp add: is_valid_def valid_0499370899)
  have n: "normalize_national_id (Some (ustr ''0499370899'')) = ustr ''0499370899''"
    by (rule normalize_fixed [OF latin_0499370899])
  have b: "\<not> is_valid (Some (ustr ''12-34''))"
    by (simp add: is_valid_def short_12_34)
  have m: "ustr ''Invalid national id: reason='' @ reason_text LengthOrNotDigits
             @ ustr '', normalized='' @ format_opt (Some (ustr ''1234''))
           = ustr ''Invalid national id: reason=length_or_not_digits, normalized=1234''"
    by (simp add: ustr_def format_opt_def)
  from validate_or_raise_spec [of "Some (ustr ''0499370899'')"] a n
  have 1: "validate_or_raise (Some (ustr ''0499370899'')) = Inr (Some (ustr ''0499370899''))"
    by simp
  from validate_or_raise_spec [of "Some (ustr ''12-34'')"] b
  have 2: "validate_or_raise (Some (ustr ''12-34''))
     = Inl (ValueError,
         ustr ''Invalid national id: reason=length_or_not_digits, normalized=1234'')"
    unfolding short_12_34 m [symmetric] by auto
  from a b 1 2 show ?thesis by blast
qed

text \<open>
  C10. When \<open>is_valid_national_id\<close> succeeds, the returned code is a string of exactly
  ten latin digits, a fixed point of \<open>normalize_national_id\<close>, and validating it again
  succeeds with the same code. Hence a string returned by \<open>validate_or_raise\<close> is
  accepted by \<open>is_valid_national_id\<close> and returned again by \<open>validate_or_raise\<close>.
\<close>

theorem success_revalidates:
  "(fst (is_valid_national_id x) \<longrightarrow>
      (\<exists>n. is_valid_national_id x = (True, None, Some n) \<and>
           length n = 10 \<and> list_all latin_digit n \<and>
           normalize_national_id (Some n) = n \<and>
           is_valid_national_id (Some n) = (True, None, Some n))) \<and>
   (validate_or_raise x = Inr v \<longrightarrow>
      (\<exists>n. v = Some n \<and>
           is_valid_national_id (Some n) = (True, None, Some n) \<and>
           is_valid (Some n) \<and>
           validate_or_raise (Some n) = Inr (Some n)))"
proof -
  let ?n = "normalize_national_id x"
  have l: "list_all latin_digit ?n" by (rule normalize_latin)
  have f: "normalize_national_id (Some ?n) = ?n" by (rule normalize_fixed [OF l])
  have ok: "is_valid_national_id x = (True, None, Some ?n) \<and> length ?n = 10 \<and>
            is_valid_national_id (Some ?n) = (True, None, Some ?n)"
    if "fst (is_valid_national_id x)"
  proof -
    from that have c: "?n \<noteq> []" "length ?n = 10" "?n \<notin> set INVALID_SAME_DIGITS"
        "digit_value (?n ! 9) = expected_check_digit ?n"
      unfolding is_valid_national_id_stages Let_def by (auto split: if_splits)
    then have 1: "is_valid_national_id x = (True, None, Some ?n)"
      unfolding is_valid_national_id_stages Let_def by simp
    from c have 2: "is_valid_national_id (Some ?n) = (True, None, Some ?n)"
      unfolding is_valid_national_id_stages [of "Some ?n"] f Let_def by simp
    from 1 2 c show ?thesis by simp
  qed
  have A: "fst (is_valid_national_id x) \<longrightarrow>
      (\<exists>n. is_valid_national_id x = (True, None, Some n) \<and>
           length n = 10 \<and> list_all latin_digit n \<and>
           normalize_national_id (Some n) = n \<and>
           is_valid_national_id (Some n) = (True, None, Some n))"
    using ok l f by blast
  have B: "validate_or_raise x = Inr v \<longrightarrow>
      (\<exists>n. v = Some n \<and>
           is_valid_national_id (Some n) = (True, None, Some n) \<and>
           is_valid (Some n) \<and>
           validate_or_raise (Some n) = Inr (Some n))"
  proof
    assume r: "validate_or_raise x = Inr v"
    then have t: "fst (is_valid_national_id x)"
      by (cases "is_valid_national_id x") (auto simp: validate_or_raise_def split: if_splits)
    from ok [OF t] r have v: "v = Some ?n" by (simp add: validate_or_raise_def)
    from ok [OF t] have again: "is_valid_national_id (Some ?n) = (True, None, Some ?n)" by simp
    then have "is_valid (Some ?n)" "validate_or_raise (Some ?n) = Inr (Some ?n)"
      by (simp_all add: is_valid_def validate_or_raise_def)
    with v again show "\<exists>n. v = Some n \<and>
           is_valid_national_id (Some n) = (True, None, Some n) \<and>
           is_valid (Some n) \<and>
           validate_or_raise (Some n) = Inr (Some n)"
      by blast
  qed
  from A B show ?thesis by (rule conjI)
qed

theorem success_revalidates_witness:
  "fst (is_valid_national_id
     (Some [0x6F0, 0x6F4, 0x6F9, 0x6F9, 0x6F3, 0x6F7, 0x6F0, 0x6F8, 0x6F9, 0x6F9])) \<and>
   validate_or_raise
     (Some [0x6F0, 0x6F4, 0x6F9, 0x6F9, 0x6F3, 0x6F7, 0x6F0, 0x6F8, 0x6F9, 0x6F9])
     = Inr (Some (ustr ''0499370899'')) \<and>
   is_valid_national_id (Some (ustr ''0499370899''))
     = (True, None, Some (ustr ''0499370899'')) \<and>
   validate_or_raise (Some (ustr ''0499370899'')) = Inr (Some (ustr ''0499370899''))"
proof -
  let ?p = "Some [0x6F0, 0x6F4, 0x6F9, 0x6F9, 0x6F3, 0x6F7, 0x6F0, 0x6F8, 0x6F9, 0x6F9 :: nat]"
  have a: "fst (is_valid_national_id ?p)"
    by (simp add: valid_persian_0499370899)
  have b: "validate_or_raise ?p = Inr (Some (ustr ''0499370899''))"
    by (simp add: validate_or_raise_def valid_persian_0499370899)
  from success_revalidates [of ?p "Some (ustr ''0499370899'')"] a b
  show ?thesis by auto
qed

end
